theory Spec2Isabelle
  imports Main "HOL-Library.Sublist"
begin

section \<open>Values thrown and returned by the scripts\<close>

text \<open>
  The sources classify a thrown value by its \<open>name\<close> property (\<open>err.name !== "AssertionError"\<close>,
  \<open>err.name !== "Bypass"\<close>), match a bypass by its \<open>code\<close> property and print its \<open>stack\<close>
  property when that is truthy. A thrown value is therefore an Error object with these
  properties. \<open>stack = None\<close> stands for a \<open>stack\<close> that is absent, \<open>code = None\<close> for an
  object without a \<open>code\<close>. Bypass codes are strings, as in every example of the sources,
  so that \<open>!==\<close> is inequality of values.
\<close>

record jserr =
  name :: string
  message :: string
  stack :: "string option"
  code :: "string option"

datatype jsval = JUndefined | JBool bool | JNum int

text \<open>A settled promise: rejected with a thrown value (\<open>Inl\<close>) or resolved with a value.\<close>

type_synonym outcome = "jserr + jsval"

text \<open>
  \<open>class Bypass extends Error\<close>: the message is \<open>Bypass for ${code}\<close>, \<open>name\<close> is the
  constructor's name. The stack is captured by the \<open>Error\<close> constructor before \<open>name\<close> is
  assigned, so its first line starts with \<open>Error\<close>; the frame lines that follow depend on
  where the script is loaded from and are left out.
\<close>

definition Bypass :: "string \<Rightarrow> jserr" where
  "Bypass cd =
     \<lparr>name = ''Bypass'', message = ''Bypass for '' @ cd,
      stack = Some (''Error: Bypass for '' @ cd), code = Some cd\<rparr>"

text \<open>The errors the runtime itself raises in the modelled code.\<close>

definition TypeError :: "string \<Rightarrow> jserr" where
  "TypeError msg =
     \<lparr>name = ''TypeError'', message = msg, stack = Some (''TypeError: '' @ msg), code = None\<rparr>"

definition RangeError :: "string \<Rightarrow> jserr" where
  "RangeError msg =
     \<lparr>name = ''RangeError'', message = msg, stack = Some (''RangeError: '' @ msg), code = None\<rparr>"

section \<open>FormatTestOutput\<close>

text \<open>
  What \<open>console.log\<close>, \<open>console.warn\<close> and \<open>console.error\<close> receive: a string, or the
  thrown object itself.
\<close>

datatype channel = Log | Warn | Error

datatype logged = Text string | Obj jserr

text \<open>
  The state of one \<open>FormatTestOutput\<close> instance together with the console it writes to.
  \<open>indentation\<close> is the field set to 0 by the constructor. \<open>listeners\<close> are the handlers
  registered for the \<open>"error"\<close> event of the \<open>EventEmitter\<close> the class extends, in the order of
  registration; a handler returns \<open>None\<close> when it returns normally and \<open>Some e\<close> when it
  throws \<open>e\<close>. \<open>console\<close> lists the console calls, the oldest first.
\<close>

record engine =
  indentation :: int
  listeners :: "(jserr \<Rightarrow> jserr option) list"
  console :: "(channel \<times> logged) list"

definition constructor :: engine where
  "constructor = \<lparr>indentation = 0, listeners = [], console = []\<rparr>"

definition console_log :: "string \<Rightarrow> engine \<Rightarrow> engine" where
  "console_log msg s = s\<lparr>console := console s @ [(Log, Text msg)]\<rparr>"

definition console_warn :: "logged \<Rightarrow> engine \<Rightarrow> engine" where
  "console_warn v s = s\<lparr>console := console s @ [(Warn, v)]\<rparr>"

definition console_error :: "logged \<Rightarrow> engine \<Rightarrow> engine" where
  "console_error v s = s\<lparr>console := console s @ [(Error, v)]\<rparr>"

text \<open>
  \<open>chalk\<close> wraps a string in terminal escape codes when colours are enabled and returns it
  as it is otherwise; the styles are modelled with colours disabled.
\<close>

definition chalk :: "string \<Rightarrow> string" where
  "chalk msg = msg"

text \<open>The markers of a passed and of a failed check (U+2713 and U+2717, each followed by
  three spaces), as UTF-8 bytes.\<close>

definition tick :: string where
  "tick = [CHR 0xE2, CHR 0x9C, CHR 0x93] @ ''   ''"

definition cross :: string where
  "cross = [CHR 0xE2, CHR 0x9C, CHR 0x97] @ ''   ''"

text \<open>
  \<open>indent()\<close> is \<open>new Array(this.indentation + 1).join("  ")\<close>: two spaces for every level.
  \<open>new Array(n)\<close> raises a RangeError for a negative \<open>n\<close>.
\<close>

definition indent :: "engine \<Rightarrow> jserr + string" where
  "indent s =
     (if indentation s + 1 < 0 then Inl (RangeError ''Invalid array length'')
      else Inr (concat (replicate (nat (indentation s)) ''  '')))"

text \<open>\<open>msg.replace(/\n/g, `\n${pre}`)\<close>.\<close>

definition replace_newlines :: "string \<Rightarrow> string \<Rightarrow> string" where
  "replace_newlines pre msg =
     concat (map (\<lambda>c. if c = CHR 0x0A then CHR 0x0A # pre else [c]) msg)"

text \<open>
  \<open>indentLines(msg)\<close> calls \<open>msg.replace\<close>: an object that is not a string has no such
  method, and the call raises a TypeError.
\<close>

definition indentLines :: "logged \<Rightarrow> engine \<Rightarrow> jserr + string" where
  "indentLines msg s =
     (case indent s of
        Inl e \<Rightarrow> Inl e
      | Inr pre \<Rightarrow>
          (case msg of
             Obj _ \<Rightarrow> Inl (TypeError ''msg.replace is not a function'')
           | Text m \<Rightarrow> Inr (pre @ replace_newlines pre m)))"

text \<open>\<open>err.stack ? err.stack : err\<close>; the empty string is falsy.\<close>

definition stack_or_err :: "jserr \<Rightarrow> logged" where
  "stack_or_err err =
     (case stack err of
        None \<Rightarrow> Obj err
      | Some st \<Rightarrow> if st = [] then Obj err else Text st)"

text \<open>
  \<open>this.emit("error", err)\<close>. An \<open>EventEmitter\<close> without a listener for \<open>"error"\<close> throws the
  emitted Error; otherwise the listeners run in order and the first one that throws ends the
  call with its error. The result is what the call throws, if anything.
\<close>

fun run_listeners :: "(jserr \<Rightarrow> jserr option) list \<Rightarrow> jserr \<Rightarrow> jserr option" where
  "run_listeners [] err = None"
| "run_listeners (l # ls) err =
     (case l err of Some e \<Rightarrow> Some e | None \<Rightarrow> run_listeners ls err)"

definition emit_error :: "jserr \<Rightarrow> engine \<Rightarrow> jserr option" where
  "emit_error err s =
     (if listeners s = [] then Some err else run_listeners (listeners s) err)"

text \<open>
  A body (\<open>contents\<close>) of \<open>it\<close> runs on the state and settles: a synchronous throw and a
  rejected promise both reach the same \<open>.catch\<close>, since \<open>it\<close> calls the body inside
  \<open>.then\<close>.
\<close>

type_synonym body = "engine \<Rightarrow> outcome \<times> engine"

text \<open>
  \<open>section\<close> calls its body directly, in \<open>Promise.resolve(contents())\<close>, so what the body does
  matters: it throws (and no promise exists yet), or it returns a promise that is rejected,
  or it returns a value or a promise that is resolved. What is thrown or what a promise is
  rejected with is an Error object, or \<open>undefined\<close> or \<open>null\<close>, which have no properties to
  read.
\<close>

datatype thrown = Err jserr | Undefined | Null

datatype completion = Throws thrown | RejectsWith thrown | ResolvesWith jsval

type_synonym section_body = "engine \<Rightarrow> completion \<times> engine"

text \<open>
  Reading a property of \<open>undefined\<close> or \<open>null\<close> raises a TypeError. The wording of its message
  is the one of the runtimes the package was written for; later runtimes word it otherwise.
\<close>

definition cannot_read :: "string \<Rightarrow> string \<Rightarrow> jserr" where
  "cannot_read property val =
     TypeError (''Cannot read property '' @ [CHR 0x27] @ property @ [CHR 0x27] @ '' of '' @ val)"

text \<open>The last step of \<open>section\<close>: \<open>.then(() => --this.indentation)\<close>.\<close>

definition section_then :: "engine \<Rightarrow> completion \<times> engine" where
  "section_then s =
     (let s' = s\<lparr>indentation := indentation s - 1\<rparr>
      in (ResolvesWith (JNum (indentation s')), s'))"

text \<open>
  The \<open>.catch\<close> handler of \<open>section\<close>: it warns the line that names the section, then
  \<open>err.stack ? err.stack : err\<close>, and returns \<open>true\<close>. Reading \<open>err.stack\<close> throws when the
  promise was rejected with \<open>undefined\<close> or \<open>null\<close>; the handler then rejects and the \<open>.then\<close>
  after it is skipped.
\<close>

definition section_catch :: "string \<Rightarrow> thrown \<Rightarrow> engine \<Rightarrow> completion \<times> engine" where
  "section_catch nm reason s =
     (let s1 = console_warn (Text (chalk (''Encountered error in section '' @ nm @ ''.''))) s
      in case reason of
           Err err \<Rightarrow> section_then (console_warn (stack_or_err err) s1)
         | Undefined \<Rightarrow> (RejectsWith (Err (cannot_read ''stack'' ''undefined'')), s1)
         | Null \<Rightarrow> (RejectsWith (Err (cannot_read ''stack'' ''null'')), s1))"

text \<open>
  \<open>section(name, contents)\<close>: three header lines, \<open>++this.indentation\<close>, the body, the
  \<open>.catch\<close> and the \<open>.then\<close> above. The header is written synchronously, so a RangeError of
  \<open>indent()\<close> leaves \<open>section\<close> before the increment; a body that throws leaves \<open>section\<close>
  after it, before any handler is attached.
\<close>

definition section_fn :: "string \<Rightarrow> section_body \<Rightarrow> engine \<Rightarrow> completion \<times> engine" where
  "section_fn nm contents s =
     (let s0 = console_log '''' s in
      case indent s0 of
        Inl e \<Rightarrow> (Throws (Err e), s0)
      | Inr pre \<Rightarrow>
          (let s1 = console_log '''' (console_log (pre @ chalk nm) s0);
               s2 = s1\<lparr>indentation := indentation s1 + 1\<rparr>;
               (r, s3) = contents s2
           in case r of
                Throws v \<Rightarrow> (Throws v, s3)
              | RejectsWith reason \<Rightarrow> section_catch nm reason s3
              | ResolvesWith v \<Rightarrow> section_then s3))"

text \<open>
  The \<open>.catch\<close> handler of \<open>it\<close>: emit, warn the failure line, print the detail one level
  deeper, rethrow. Every statement that can throw ends the handler where it stands.
\<close>

definition it_catch :: "string \<Rightarrow> jserr \<Rightarrow> engine \<Rightarrow> outcome \<times> engine" where
  "it_catch nm err s =
     (case emit_error err s of
        Some e \<Rightarrow> (Inl e, s)
      | None \<Rightarrow>
          (case indent s of
             Inl e \<Rightarrow> (Inl e, s)
           | Inr pre \<Rightarrow>
               (let s1 = console_warn (Text (pre @ chalk cross @ nm)) s;
                    s2 = s1\<lparr>indentation := indentation s1 + 1\<rparr>
                in case indentLines (stack_or_err err) s2 of
                     Inl e \<Rightarrow> (Inl e, s2)
                   | Inr txt \<Rightarrow>
                       (let s3 = console_log txt s2;
                            s4 = s3\<lparr>indentation := indentation s3 - 1\<rparr>
                        in (Inl err, s4)))))"

text \<open>
  \<open>it(name, contents)\<close>: the body, then the success line, and the \<open>.catch\<close> above, which also
  receives what the success line throws.
\<close>

definition it :: "string \<Rightarrow> body \<Rightarrow> engine \<Rightarrow> outcome \<times> engine" where
  "it nm contents s =
     (case contents s of
        (Inl err, s1) \<Rightarrow> it_catch nm err s1
      | (Inr _, s1) \<Rightarrow>
          (case indent s1 of
             Inl e \<Rightarrow> it_catch nm e s1
           | Inr pre \<Rightarrow> (Inr JUndefined, console_log (pre @ chalk tick @ nm) s1)))"

text \<open>
  \<open>allowAssertion(err, cb)\<close> for an \<open>err\<close> that is not a function; called with a function
  \<open>cb\<close> alone it returns the handler \<open>(err) => this.allowAssertion(err, cb)\<close>, which is
  \<open>\<lambda>err. allowAssertion err (Some cb)\<close> here. The callback runs on the state and returns
  \<open>Some e\<close> when it throws \<open>e\<close>.
\<close>

type_synonym callback = "jserr \<Rightarrow> engine \<Rightarrow> jserr option \<times> engine"

definition allowAssertion :: "jserr \<Rightarrow> callback option \<Rightarrow> engine \<Rightarrow> outcome \<times> engine" where
  "allowAssertion err cb s =
     (if name err \<noteq> ''AssertionError'' then (Inl err, s)
      else case cb of
             None \<Rightarrow> (Inr (JBool True), s)
           | Some f \<Rightarrow>
               (let s1 = s\<lparr>indentation := indentation s + 1\<rparr> in
                case f err s1 of
                  (Some e, s2) \<Rightarrow> (Inl e, s2)
                | (None, s2) \<Rightarrow> (Inr (JBool True), s2\<lparr>indentation := indentation s2 - 1\<rparr>)))"

text \<open>The handler returned by \<open>startBypass(code)\<close>.\<close>

definition startBypass :: "string \<Rightarrow> jserr \<Rightarrow> engine \<Rightarrow> outcome \<times> engine" where
  "startBypass cd err s =
     (if name err \<noteq> ''AssertionError''
      then (Inl err,
            console_error (Obj err)
              (console_warn (Text ''Refusing to bypass non-AssertionError'') s))
      else (Inl (Bypass cd), s))"

text \<open>The handler returned by \<open>resumeBypass(code)\<close>.\<close>

definition resumeBypass :: "string \<Rightarrow> jserr \<Rightarrow> engine \<Rightarrow> outcome \<times> engine" where
  "resumeBypass cd err s =
     (if name err \<noteq> ''Bypass'' \<or> code err \<noteq> Some cd then (Inl err, s)
      else (Inr (JBool True), s))"

text \<open>
  Promise chaining: \<open>p.then(f)\<close> runs \<open>f\<close> on the value of a resolved \<open>p\<close> and passes a
  rejection on; \<open>p.catch(h)\<close> runs \<open>h\<close> on the reason of a rejected \<open>p\<close> and passes a value on.
\<close>

definition then_p :: "(jsval \<Rightarrow> engine \<Rightarrow> outcome \<times> engine) \<Rightarrow> outcome \<times> engine \<Rightarrow> outcome \<times> engine" where
  "then_p f p = (case p of (Inr v, s) \<Rightarrow> f v s | (Inl e, s) \<Rightarrow> (Inl e, s))"

definition catch_p :: "(jserr \<Rightarrow> engine \<Rightarrow> outcome \<times> engine) \<Rightarrow> outcome \<times> engine \<Rightarrow> outcome \<times> engine" where
  "catch_p h p = (case p of (Inl e, s) \<Rightarrow> h e s | (Inr v, s) \<Rightarrow> (Inr v, s))"

text \<open>\<open>_it(...args)\<close> is \<open>() => this.it(...args)\<close>, for use inside \<open>.then()\<close>.\<close>

definition it_thunk :: "string \<Rightarrow> body \<Rightarrow> jsval \<Rightarrow> engine \<Rightarrow> outcome \<times> engine" where
  "it_thunk nm contents = (\<lambda>_. it nm contents)"

text \<open>A chain \<open>p.then(out._it(n1, b1)).then(out._it(n2, b2))...\<close> of checks.\<close>

fun then_checks :: "(string \<times> body) list \<Rightarrow> outcome \<times> engine \<Rightarrow> outcome \<times> engine" where
  "then_checks [] p = p"
| "then_checks ((nm, contents) # cs) p = then_checks cs (then_p (it_thunk nm contents) p)"

text \<open>Sections nested in one another around a body: \<open>section(n1, () => section(n2, ... ))\<close>.\<close>

fun nested :: "string list \<Rightarrow> section_body \<Rightarrow> section_body" where
  "nested [] contents = contents"
| "nested (nm # nms) contents = section_fn nm (nested nms contents)"

text \<open>
  The three kinds of control signal, told apart the way the sources do: by the \<open>name\<close> of the
  thrown value.
\<close>

datatype kind = AssertionFailure | BypassSignal | FatalFailure

definition kind_of :: "jserr \<Rightarrow> kind" where
  "kind_of err =
     (if name err = ''AssertionError'' then AssertionFailure
      else if name err = ''Bypass'' then BypassSignal
      else FatalFailure)"

text \<open>
  The error an assertion library throws: \<open>name\<close> is \<open>AssertionError\<close> and the stack starts
  with the name and the message.
\<close>

definition AssertionError :: "string \<Rightarrow> jserr" where
  "AssertionError msg =
     \<lparr>name = ''AssertionError'', message = msg,
      stack = Some (''AssertionError: '' @ msg), code = None\<rparr>"

section \<open>TestMachine\<close>

text \<open>
  \<open>class TestError extends Error\<close>: the stack is the line \<open>Error: <message>\<close> followed by the
  frame lines the runtime recorded where the error was created, which the model takes from
  outside. Its \<open>exitCode\<close> is not read by the code modelled here.
\<close>

definition TestError :: "string \<Rightarrow> string \<Rightarrow> jserr" where
  "TestError msg frames =
     \<lparr>name = ''TestError'', message = msg, stack = Some (''Error: '' @ msg @ frames),
      code = None\<rparr>"

text \<open>Numbers inside template literals: decimal digits, with a sign for a negative number.\<close>

definition digit :: "nat \<Rightarrow> char" where
  "digit d = ''0123456789'' ! d"

fun decimal :: "nat \<Rightarrow> string" where
  "decimal n = (if 10 \<le> n then decimal (n div 10) @ [digit (n mod 10)] else [digit n])"

declare decimal.simps [simp del]

definition number :: "int \<Rightarrow> string" where
  "number i = (if i < 0 then CHR ''-'' # decimal (nat (- i)) else decimal (nat i))"

text \<open>
  One remote command: it resolves or rejects after so many milliseconds, or never settles.
  \<open>promiseTimeout(p, ms)\<close> settles as \<open>p\<close> does when \<open>p\<close> settles within \<open>ms\<close> milliseconds,
  and rejects at \<open>ms\<close> otherwise.
\<close>

datatype attempt = Resolves nat | Rejects nat | Pending

datatype settled = Resolved nat | Rejected nat

definition promiseTimeout :: "attempt \<Rightarrow> nat \<Rightarrow> settled" where
  "promiseTimeout p ms =
     (case p of
        Resolves d \<Rightarrow> if d \<le> ms then Resolved d else Rejected ms
      | Rejects d \<Rightarrow> if d \<le> ms then Rejected d else Rejected ms
      | Pending \<Rightarrow> Rejected ms)"

text \<open>
  A \<open>TestMachine\<close> and the world it runs in. \<open>ssh\<close> is the abstract method a subclass
  supplies: what the command does when it is the \<open>k\<close>-th remote command issued. \<open>sshTimeout\<close>
  is \<open>this.opts.sshTimeout\<close>. \<open>now\<close> is the clock, in milliseconds. Every \<open>new Date()\<close> is a
  reading of its own: \<open>lag k\<close> is the time that has passed, since the step before it, when the
  \<open>k\<close>-th reading is made, and \<open>reads\<close> counts the readings. A remote command takes what its
  attempt says; \<open>sleep(100)\<close> takes 100 ms, and what the timer adds to that is part of the
  lag of the reading that follows. \<open>calls\<close> counts the remote commands issued. \<open>trace n\<close> are
  the frame lines the runtime records for an error created after \<open>n\<close> commands. \<open>printed\<close>
  lists the lines given to \<open>console.log\<close>.
\<close>

record machine =
  ssh :: "string \<Rightarrow> nat \<Rightarrow> attempt"
  sshTimeout :: nat
  lag :: "nat \<Rightarrow> nat"
  trace :: "nat \<Rightarrow> string"
  now :: int
  reads :: nat
  calls :: nat
  printed :: "string list"

datatype poll = Ready | Fatal jserr | Never

text \<open>\<open>new Date()\<close>: the state after the reading; the value read is its \<open>now\<close>.\<close>

definition new_Date :: "machine \<Rightarrow> machine" where
  "new_Date m = m\<lparr>now := now m + int (lag m (reads m)), reads := reads m + 1\<rparr>"

text \<open>The probe of \<open>ensureStarted\<close>: the command \<open>echo 'Test'\<close>.\<close>

definition echo_test :: string where
  "echo_test = ''echo '' @ [CHR 0x27] @ ''Test'' @ [CHR 0x27]"

text \<open>
  \<open>ensureStarted(timeout, started, failures)\<close>. An omitted argument is \<open>None\<close>; a \<open>Date\<close> is
  truthy, and \<open>!failures\<close> replaces only 0 and \<open>undefined\<close>, by 0. A call without \<open>started\<close>
  reads the clock twice: once for \<open>started\<close> and once for the test of the deadline. The
  line printed on success reads it again.
\<close>

function ensureStarted :: "int \<Rightarrow> int option \<Rightarrow> nat option \<Rightarrow> machine \<Rightarrow> poll \<times> machine" where
  "ensureStarted timeout started failures m =
     (let m0 = (case started of None \<Rightarrow> new_Date m | Some t \<Rightarrow> m);
          started' = (case started of None \<Rightarrow> now m0 | Some t \<Rightarrow> t);
          failures' = (case failures of None \<Rightarrow> 0 | Some n \<Rightarrow> n);
          m1 = new_Date m0
      in if now m1 - started' > timeout
         then (Fatal (TestError (''Machine has not responded to SSH in '' @ number timeout
                 @ ''ms (Attempted '' @ decimal failures' @ '' connections)'')
                 (trace m1 (calls m1))), m1)
         else (case promiseTimeout (ssh m1 echo_test (calls m1)) (sshTimeout m1) of
                 Resolved d \<Rightarrow>
                   (let m2 = new_Date (m1\<lparr>now := now m1 + int d, calls := calls m1 + 1\<rparr>)
                    in (Ready, m2\<lparr>printed := printed m2 @
                          [''Machine responded to SSH connections in ''
                             @ number (now m2 - started') @ ''ms'']\<rparr>))
               | Rejected d \<Rightarrow>
                   ensureStarted timeout (Some started') (Some (failures' + 1))
                     (m1\<lparr>now := now m1 + int d + 100, calls := calls m1 + 1\<rparr>)))"
  by pat_completeness auto
termination
  by (relation "measure (\<lambda>(timeout, started, failures, m).
        nat (timeout - (case started of None \<Rightarrow> 0 | Some t \<Rightarrow> now m - t) + 1))")
     (auto simp: new_Date_def split: option.splits)

declare ensureStarted.simps [simp del]

text \<open>
  \<open>ensureServiceStarted(service, timeout, started)\<close>: the same two readings on a call without
  \<open>started\<close>, no bound on the single attempt, no count of the attempts.
\<close>

function ensureServiceStarted :: "string \<Rightarrow> int \<Rightarrow> int option \<Rightarrow> machine \<Rightarrow> poll \<times> machine" where
  "ensureServiceStarted service timeout started m =
     (let m0 = (case started of None \<Rightarrow> new_Date m | Some t \<Rightarrow> m);
          started' = (case started of None \<Rightarrow> now m0 | Some t \<Rightarrow> t);
          m1 = new_Date m0
      in if now m1 - started' > timeout
         then (Fatal (TestError (''Service '' @ service @ '' has not started after ''
                 @ number timeout @ ''ms.'') (trace m1 (calls m1))), m1)
         else (case ssh m1 (''systemctl is-active '' @ service) (calls m1) of
                 Resolves d \<Rightarrow> (Ready, m1\<lparr>now := now m1 + int d, calls := calls m1 + 1\<rparr>)
               | Pending \<Rightarrow> (Never, m1\<lparr>calls := calls m1 + 1\<rparr>)
               | Rejects d \<Rightarrow>
                   ensureServiceStarted service timeout (Some started')
                     (m1\<lparr>now := now m1 + int d + 100, calls := calls m1 + 1\<rparr>)))"
  by pat_completeness auto
termination
  by (relation "measure (\<lambda>(service, timeout, started, m).
        nat (timeout - (case started of None \<Rightarrow> 0 | Some t \<Rightarrow> now m - t) + 1))")
     (auto simp: new_Date_def split: option.splits)

declare ensureServiceStarted.simps [simp del]

text \<open>
  The constructor of \<open>TestMachine\<close> with the default options (\<open>sshTimeout: 2 * 60 * 1000\<close>),
  for a subclass with the given \<open>ssh\<close>, created when the clock reads \<open>clock\<close>, on a host
  where no time passes between one step and the reading after it and the runtime records
  no frames (\<open>Error.stackTraceLimit = 0\<close>). Another host is a record update away.
\<close>

definition TestMachine :: "(string \<Rightarrow> nat \<Rightarrow> attempt) \<Rightarrow> int \<Rightarrow> machine" where
  "TestMachine ssh_impl clock =
     \<lparr>ssh = ssh_impl, sshTimeout = 2 * 60 * 1000, lag = (\<lambda>k. 0), trace = (\<lambda>n. []),
      now = clock, reads = 0, calls = 0, printed = []\<rparr>"

subsection \<open>Vocabulary for the attempts of one poll\<close>

text \<open>
  The \<open>j\<close>-th attempt of a call of \<open>ensureStarted\<close> made in state \<open>m\<close>, as the poller sees it:
  bounded by \<open>sshTimeout\<close>.
\<close>

definition probe :: "machine \<Rightarrow> nat \<Rightarrow> settled" where
  "probe m j = promiseTimeout (ssh m echo_test (calls m + j)) (sshTimeout m)"

fun took :: "settled \<Rightarrow> nat" where
  "took (Resolved d) = d"
| "took (Rejected d) = d"

fun rejected :: "settled \<Rightarrow> bool" where
  "rejected (Resolved d) = False"
| "rejected (Rejected d) = True"

text \<open>
  The time the first \<open>k\<close> failed attempts account for: what each attempt took, and the
  100 ms slept after it.
\<close>

fun waited :: "(nat \<Rightarrow> settled) \<Rightarrow> nat \<Rightarrow> nat" where
  "waited p 0 = 0"
| "waited p (Suc k) = waited p k + took (p k) + 100"

text \<open>The lags of the readings \<open>0, ..., j\<close> of a sequence of readings, added up.\<close>

fun drift :: "(nat \<Rightarrow> nat) \<Rightarrow> nat \<Rightarrow> nat" where
  "drift l 0 = l 0"
| "drift l (Suc j) = drift l j + l (Suc j)"

text \<open>
  The time that has passed since \<open>started\<close> when a call without \<open>started\<close>, made in state
  \<open>m\<close>, tests the deadline after \<open>j\<close> failed attempts: the attempts, the sleeps, and the lags
  of the readings made by the tests (the reading before them set \<open>started\<close>).
\<close>

definition elapsed :: "machine \<Rightarrow> nat \<Rightarrow> nat" where
  "elapsed m j = waited (probe m) j + drift (\<lambda>i. lag m (reads m + Suc i)) j"

subsection \<open>Example machines\<close>

text \<open>A machine that refuses every connection at once.\<close>

definition refusing :: "string \<Rightarrow> nat \<Rightarrow> attempt" where
  "refusing cmd k = Rejects 0"

text \<open>A machine whose first connection fails after 100 ms and whose later ones succeed at once.\<close>

definition booting :: "string \<Rightarrow> nat \<Rightarrow> attempt" where
  "booting cmd k = (if k < 1 then Rejects 100 else Resolves 0)"

text \<open>A host on which one millisecond passes before every reading of the clock.\<close>

definition ticking :: "nat \<Rightarrow> nat" where
  "ticking k = 1"

section \<open>Properties of FormatTestOutput\<close>

subsection \<open>Auxiliary facts\<close>

lemma run_listeners_quiet: "\<forall>l \<in> set ls. l err = None \<Longrightarrow> run_listeners ls err = None"
  by (induction ls) auto

lemma kind_of_assertion: "kind_of err = AssertionFailure \<longleftrightarrow> name err = ''AssertionError''"
  by (simp add: kind_of_def)

lemma then_p_rejected: "then_p f (Inl e, s) = (Inl e, s)"
  by (simp add: then_p_def)

lemma then_checks_rejected: "then_checks cs (Inl e, s) = (Inl e, s)"
  by (induction cs) (auto simp: then_p_rejected)

text \<open>
  With a listener for \<open>"error"\<close> that returns, a depth that is not negative and a failure that
  carries a stack, \<open>it\<close> warns one failure line with the name, prints the stack one level
  deeper, restores the depth and rejects with the failure it caught.
\<close>

lemma it_failure_logged:
  assumes "contents s = (Inl f, s1)" and "listeners s1 \<noteq> []"
    and "\<forall>l \<in> set (listeners s1). l f = None"
    and "0 \<le> indentation s1" and "stack f = Some st" and "st \<noteq> []"
  shows "it nm contents s =
           (Inl f, s1\<lparr>console := console s1 @
              [(Warn, Text (concat (replicate (nat (indentation s1)) ''  '') @ cross @ nm)),
               (Log, Text (concat (replicate (nat (indentation s1 + 1)) ''  '')
                  @ replace_newlines (concat (replicate (nat (indentation s1 + 1)) ''  '')) st))]\<rparr>)"
  using assms run_listeners_quiet[of "listeners s1" f]
  by (simp add: it_def it_catch_def emit_error_def indent_def indentLines_def stack_or_err_def
      console_warn_def console_log_def chalk_def Let_def)

text \<open>
  \<open>it\<close> leaves the depth as the body left it whenever the failure it caught carries a stack.
\<close>

lemma it_depth:
  assumes "contents s = (r, s1)" and "\<forall>e. r = Inl e \<longrightarrow> (\<exists>st. stack_or_err e = Text st)"
  shows "indentation (snd (it nm contents s)) = indentation s1"
proof (cases r)
  case (Inl e)
  with assms obtain st where "stack_or_err e = Text st" by blast
  with Inl assms(1) show ?thesis
    by (simp add: it_def it_catch_def indent_def indentLines_def console_warn_def console_log_def
        Let_def split: option.splits)
next
  case (Inr v)
  with assms(1) show ?thesis
    by (simp add: it_def it_catch_def indent_def indentLines_def console_warn_def console_log_def
        emit_error_def stack_or_err_def RangeError_def Let_def split: option.splits)
qed

subsection \<open>Checks\<close>

text \<open>
  C1. A check whose body fails with an AssertionError should log one failure line with the
  check's name and the failure's detail one level deeper, and then reject with the failure.
  On a \<open>FormatTestOutput\<close> as its constructor leaves it, with no listener for \<open>"error"\<close>,
  \<open>this.emit("error", err)\<close> throws the failure before anything is logged: the check rejects
  with the failure and the console stays empty.
\<close>

theorem it_failure_without_listener:
  "it ''adds'' (\<lambda>s. (Inl (AssertionError ''expected 2 to equal 3''), s)) constructor
     = (Inl (AssertionError ''expected 2 to equal 3''), constructor)
   \<and> console constructor = []"
  by (simp add: it_def it_catch_def emit_error_def constructor_def)

text \<open>
  C9. A check should leave the depth as it found it on every path. When the failure carries
  no stack, \<open>indentLines\<close> receives the object itself and throws between the increment and
  the decrement: the check rejects with the TypeError and the depth stays one higher.
\<close>

theorem it_depth_not_restored:
  "it ''adds''
      (\<lambda>s. (Inl \<lparr>name = ''AssertionError'', message = ''boom'', stack = None, code = None\<rparr>, s))
      (constructor\<lparr>listeners := [\<lambda>e. None]\<rparr>)
     = (Inl (TypeError ''msg.replace is not a function''),
        \<lparr>indentation = 1, listeners = [\<lambda>e. None],
         console = [(Warn, Text (cross @ ''adds''))]\<rparr>)
   \<and> indentation (constructor\<lparr>listeners := [\<lambda>e. None]\<rparr>) = 0"
  by (simp add: it_def it_catch_def emit_error_def constructor_def indent_def indentLines_def
      stack_or_err_def console_warn_def chalk_def Let_def)

subsection \<open>Sections\<close>

text \<open>
  What \<open>section\<close> does absorb: at a depth that is not negative, a body whose promise is
  rejected with an Error makes \<open>section\<close> warn the section's line and the stack (or the
  error), and resolve one level up.
\<close>

lemma section_absorbs_rejection:
  assumes "0 \<le> indentation s"
    and "contents
           (s\<lparr>console := console s @ [(Log, Text ''''),
                (Log, Text (concat (replicate (nat (indentation s)) ''  '') @ nm)), (Log, Text '''')],
              indentation := indentation s + 1\<rparr>) = (RejectsWith (Err err), t)"
  shows "section_fn nm contents s =
           (ResolvesWith (JNum (indentation t - 1)),
            t\<lparr>console := console t @
                 [(Warn, Text (''Encountered error in section '' @ nm @ ''.'')),
                  (Warn, stack_or_err err)],
               indentation := indentation t - 1\<rparr>)"
  using assms
  by (simp add: section_fn_def section_catch_def section_then_def indent_def console_log_def
      console_warn_def chalk_def Let_def)

text \<open>
  A body is tame when, from every state, it returns a value or a promise that is resolved
  or rejected with an Error, and leaves the depth as it found it. Sections nested around a
  tame body, entered at a depth that is not negative, resolve and leave the depth as they
  found it.
\<close>

lemma nested_tame:
  assumes "\<forall>t. indentation (snd (contents t)) = indentation t
             \<and> ((\<exists>v. fst (contents t) = ResolvesWith v) \<or> (\<exists>e. fst (contents t) = RejectsWith (Err e)))"
    and "0 \<le> indentation s"
  shows "indentation (snd (nested nms contents s)) = indentation s
       \<and> ((\<exists>v. fst (nested nms contents s) = ResolvesWith v)
          \<or> (\<exists>e. fst (nested nms contents s) = RejectsWith (Err e)))"
  using assms(2)
proof (induction nms arbitrary: s)
  case Nil
  with assms(1) show ?case by simp
next
  case (Cons nm nms)
  let ?t = "s\<lparr>console := console s @ [(Log, Text ''''),
                (Log, Text (concat (replicate (nat (indentation s)) ''  '') @ nm)), (Log, Text '''')],
              indentation := indentation s + 1\<rparr>"
  have "0 \<le> indentation ?t" using Cons.prems by simp
  from Cons.IH [OF this]
  have d: "indentation (snd (nested nms contents ?t)) = indentation s + 1"
    and r: "(\<exists>v. fst (nested nms contents ?t) = ResolvesWith v)
          \<or> (\<exists>e. fst (nested nms contents ?t) = RejectsWith (Err e))"
    by simp_all
  obtain c u where cu: "nested nms contents ?t = (c, u)" by (cases "nested nms contents ?t")
  with d r Cons.prems show ?case
    by (auto simp: section_fn_def section_catch_def section_then_def indent_def console_log_def
        console_warn_def chalk_def Let_def)
qed

text \<open>
  C3. \<open>section\<close> should never fail itself, whatever escapes its body. A body that throws is
  called before any handler exists, in \<open>Promise.resolve(contents())\<close>: the error leaves
  \<open>section\<close> as it came, nothing is warned and the depth stays one higher. A body whose
  promise is rejected with \<open>undefined\<close> reaches the \<open>.catch\<close> handler, which warns the first
  line and then throws on \<open>err.stack\<close>: \<open>section\<close> is rejected with that TypeError, and the
  depth stays one higher.
\<close>

theorem section_fails_itself:
  "section_fn ''Root User'' (\<lambda>s. (Throws (Err (TestError ''connection lost'' '''')), s)) constructor
     = (Throws (Err (TestError ''connection lost'' '''')),
        \<lparr>indentation = 1, listeners = [],
         console = [(Log, Text ''''), (Log, Text ''Root User''), (Log, Text '''')]\<rparr>)
   \<and> section_fn ''Root User'' (\<lambda>s. (RejectsWith Undefined, s)) constructor
     = (RejectsWith (Err (cannot_read ''stack'' ''undefined'')),
        \<lparr>indentation = 1, listeners = [],
         console = [(Log, Text ''''), (Log, Text ''Root User''), (Log, Text ''''),
                    (Warn, Text ''Encountered error in section Root User.'')]\<rparr>)"
  by (simp add: section_fn_def section_catch_def indent_def console_log_def console_warn_def
      chalk_def constructor_def Let_def)

text \<open>
  C4. The depth after the outermost section should be the depth before it, also when an
  inner body fails. With an inner body whose promise is rejected with \<open>undefined\<close>, the inner
  section is rejected before its decrement; the outer section absorbs that rejection and
  resolves, at depth 1 instead of 0. With an inner body that throws, neither section
  reaches its decrement, and the depth stays at 2.
\<close>

theorem section_depth_not_restored:
  "fst (section_fn ''outer'' (section_fn ''inner'' (\<lambda>s. (RejectsWith Undefined, s))) constructor)
     = ResolvesWith (JNum 1)
   \<and> indentation
        (snd (section_fn ''outer'' (section_fn ''inner'' (\<lambda>s. (RejectsWith Undefined, s)))
           constructor)) = 1
   \<and> indentation
        (snd (section_fn ''outer''
           (section_fn ''inner'' (\<lambda>s. (Throws (Err (AssertionError ''boom'')), s))) constructor)) = 2
   \<and> indentation constructor = 0"
  by (simp add: section_fn_def section_catch_def section_then_def indent_def console_log_def
      console_warn_def chalk_def constructor_def stack_or_err_def cannot_read_def TypeError_def
      Let_def)

subsection \<open>Bypasses\<close>

text \<open>
  C2. On an AssertionError the handler of \<open>startBypass(code)\<close> followed by the handler of
  \<open>resumeBypass(code)\<close> resolves, and the checks chained between the two leave the state
  untouched: none of their bodies runs. The handler of \<open>resumeBypass(code)\<close> rejects with
  the signal of \<open>startBypass(other)\<close>, unchanged, when the codes differ.
\<close>

theorem bypass_round_trip:
  assumes "kind_of f = AssertionFailure" and "other \<noteq> cd"
  shows "catch_p (resumeBypass cd) (then_checks cs (catch_p (startBypass cd) (Inl f, s)))
           = (Inr (JBool True), s)
       \<and> catch_p (resumeBypass cd) (then_checks cs (catch_p (startBypass other) (Inl f, s)))
           = (Inl (Bypass other), s)"
  using assms
  by (simp add: kind_of_assertion catch_p_def startBypass_def then_checks_rejected
      resumeBypass_def Bypass_def)

text \<open>C2 with the codes of the two-bypass example and a check in between that would change the depth.\<close>

theorem bypass_round_trip_witness:
  "kind_of (AssertionError ''expected 1 to equal 2'') = AssertionFailure \<and> ''no-text'' \<noteq> ''few-words''
   \<and> catch_p (resumeBypass ''few-words'')
        (then_checks [(''should not run'', \<lambda>s. (Inr JUndefined, s\<lparr>indentation := 7\<rparr>))]
           (catch_p (startBypass ''few-words'')
              (Inl (AssertionError ''expected 1 to equal 2''), constructor)))
       = (Inr (JBool True), constructor)
   \<and> catch_p (resumeBypass ''few-words'')
        (then_checks [(''should not run'', \<lambda>s. (Inr JUndefined, s\<lparr>indentation := 7\<rparr>))]
           (catch_p (startBypass ''no-text'')
              (Inl (AssertionError ''expected 1 to equal 2''), constructor)))
       = (Inl (Bypass ''no-text''), constructor)"
proof -
  have k: "kind_of (AssertionError ''expected 1 to equal 2'') = AssertionFailure"
    by (simp add: kind_of_def AssertionError_def)
  have d: "''no-text'' \<noteq> ''few-words''" by simp
  show ?thesis
    using k d bypass_round_trip [OF k d,
        of "[(''should not run'', \<lambda>s. (Inr JUndefined, s\<lparr>indentation := 7\<rparr>))]" constructor]
    by simp
qed

text \<open>
  C5. The handler of \<open>startBypass(code)\<close> rejects with a new \<open>Bypass\<close> for the code, logging
  nothing, exactly when the incoming signal is an AssertionError; any other signal, a
  \<open>Bypass\<close> included, is rejected as it came, after the warning and the signal have been
  logged. What \<open>new Bypass(code)\<close> makes is a bypass signal, and it carries the code.
\<close>

theorem startBypass_requires_assertion:
  "(startBypass cd err s = (Inl (Bypass cd), s) \<longleftrightarrow> kind_of err = AssertionFailure)
   \<and> (kind_of err \<noteq> AssertionFailure \<longrightarrow>
        startBypass cd err s =
          (Inl err, s\<lparr>console := console s @
             [(Warn, Text ''Refusing to bypass non-AssertionError''), (Error, Obj err)]\<rparr>))
   \<and> kind_of (Bypass cd) = BypassSignal
   \<and> code (Bypass cd) = Some cd"
proof -
  have made: "kind_of (Bypass cd) = BypassSignal \<and> code (Bypass cd) = Some cd"
    by (simp add: kind_of_def Bypass_def)
  have neq: "s\<lparr>console := console s @ [a, b]\<rparr> \<noteq> s" for a b
  proof
    assume "s\<lparr>console := console s @ [a, b]\<rparr> = s"
    then have "console (s\<lparr>console := console s @ [a, b]\<rparr>) = console s" by simp
    then show False by simp
  qed
  show ?thesis
    using made
    by (auto simp: kind_of_assertion startBypass_def console_warn_def console_error_def neq)
qed

text \<open>C5 on an AssertionError, on a \<open>Bypass\<close> that is already open and on a \<open>TestError\<close>
  without frames.\<close>

theorem startBypass_requires_assertion_witness:
  "startBypass ''skip-b'' (AssertionError ''boom'') constructor = (Inl (Bypass ''skip-b''), constructor)
   \<and> kind_of (Bypass ''skip-b'') = BypassSignal
   \<and> code (Bypass ''skip-b'') = Some ''skip-b''
   \<and> kind_of (Bypass ''open'') \<noteq> AssertionFailure
   \<and> startBypass ''skip-b'' (Bypass ''open'') constructor =
        (Inl (Bypass ''open''), constructor\<lparr>console :=
             [(Warn, Text ''Refusing to bypass non-AssertionError''), (Error, Obj (Bypass ''open''))]\<rparr>)
   \<and> kind_of (TestError ''down'' '''') \<noteq> AssertionFailure
   \<and> startBypass ''skip-b'' (TestError ''down'' '''') constructor =
        (Inl (TestError ''down'' ''''), constructor\<lparr>console :=
             [(Warn, Text ''Refusing to bypass non-AssertionError''), (Error, Obj (TestError ''down'' ''''))]\<rparr>)"
proof -
  have a: "kind_of (AssertionError ''boom'') = AssertionFailure"
    by (simp add: kind_of_def AssertionError_def)
  have b: "kind_of (Bypass ''open'') \<noteq> AssertionFailure"
    by (simp add: kind_of_def Bypass_def)
  have c: "kind_of (TestError ''down'' '''') \<noteq> AssertionFailure"
    by (simp add: kind_of_def TestError_def)
  show ?thesis
    using a b c
      startBypass_requires_assertion [of "''skip-b''" "AssertionError ''boom''" constructor]
      startBypass_requires_assertion [of "''skip-b''" "Bypass ''open''" constructor]
      startBypass_requires_assertion [of "''skip-b''" "TestError ''down'' ''''" constructor]
    by (simp add: constructor_def)
qed

text \<open>
  C6. \<open>allowAssertion(err)\<close> resolves exactly when \<open>err\<close> is an AssertionError, and with a
  callback it resolves only then; a callback that returns has run one level deeper, and the
  depth is taken back afterwards. Every other signal, fatal or bypass, is rejected as it
  came and the state is untouched.
\<close>

theorem allowAssertion_only_assertion:
  "((\<exists>v s'. allowAssertion err None s = (Inr v, s')) \<longleftrightarrow> kind_of err = AssertionFailure)
   \<and> ((\<exists>v s'. allowAssertion err cb s = (Inr v, s')) \<longrightarrow> kind_of err = AssertionFailure)
   \<and> (kind_of err = AssertionFailure \<longrightarrow> allowAssertion err None s = (Inr (JBool True), s))
   \<and> (kind_of err = AssertionFailure \<and> f err (s\<lparr>indentation := indentation s + 1\<rparr>) = (None, s2) \<longrightarrow>
        allowAssertion err (Some f) s = (Inr (JBool True), s2\<lparr>indentation := indentation s2 - 1\<rparr>))
   \<and> (kind_of err \<noteq> AssertionFailure \<longrightarrow> allowAssertion err cb s = (Inl err, s))"
  by (auto simp: kind_of_def allowAssertion_def)

text \<open>C6 on an AssertionError, without and with a callback, on a \<open>Bypass\<close> and on a
  \<open>TestError\<close> without frames.\<close>

theorem allowAssertion_only_assertion_witness:
  "kind_of (AssertionError ''boom'') = AssertionFailure
   \<and> allowAssertion (AssertionError ''boom'') None constructor = (Inr (JBool True), constructor)
   \<and> allowAssertion (AssertionError ''boom'')
        (Some (\<lambda>e s. (None, console_log (''swallowed '' @ message e) s))) constructor
       = (Inr (JBool True), constructor\<lparr>console := [(Log, Text ''swallowed boom'')]\<rparr>)
   \<and> kind_of (Bypass ''open'') \<noteq> AssertionFailure
   \<and> allowAssertion (Bypass ''open'') None constructor = (Inl (Bypass ''open''), constructor)
   \<and> kind_of (TestError ''down'' '''') \<noteq> AssertionFailure
   \<and> allowAssertion (TestError ''down'' '''') None constructor = (Inl (TestError ''down'' ''''), constructor)"
proof -
  have a: "kind_of (AssertionError ''boom'') = AssertionFailure"
    by (simp add: kind_of_def AssertionError_def)
  have b: "kind_of (Bypass ''open'') \<noteq> AssertionFailure"
    by (simp add: kind_of_def Bypass_def)
  have c: "kind_of (TestError ''down'' '''') \<noteq> AssertionFailure"
    by (simp add: kind_of_def TestError_def)
  have d: "(\<lambda>e s. (None, console_log (''swallowed '' @ message e) s)) (AssertionError ''boom'')
             (constructor\<lparr>indentation := indentation constructor + 1\<rparr>)
           = (None, \<lparr>indentation = 1, listeners = [], console = [(Log, Text ''swallowed boom'')]\<rparr>)"
    by (simp add: console_log_def constructor_def AssertionError_def)
  show ?thesis
    using a b c d
      allowAssertion_only_assertion [of "AssertionError ''boom''" constructor None
        "\<lambda>e s. (None, console_log (''swallowed '' @ message e) s)"
        "\<lparr>indentation = 1, listeners = [], console = [(Log, Text ''swallowed boom'')]\<rparr>"]
      allowAssertion_only_assertion [of "Bypass ''open''" constructor None]
      allowAssertion_only_assertion [of "TestError ''down'' ''''" constructor None]
    by (simp add: constructor_def)
qed

section \<open>Properties of TestMachine\<close>

subsection \<open>Auxiliary facts\<close>

lemma waited_shift: "waited p (Suc k) = took (p 0) + 100 + waited (\<lambda>j. p (Suc j)) k"
  by (induction k) auto

lemma drift_shift: "drift l (Suc k) = l 0 + drift (\<lambda>i. l (Suc i)) k"
  by (induction k) auto

lemma drift_first: "l 0 \<le> drift l k"
  by (induction k) auto

lemma ensureStarted_entry:
  "ensureStarted timeout None failures m
     = ensureStarted timeout (Some (now (new_Date m))) failures (new_Date m)"
  by (subst ensureStarted.simps, subst (2) ensureStarted.simps) (simp add: Let_def)

lemma ensureStarted_ready:
  assumes "\<forall>j<k. rejected (probe m j)" and "\<not> rejected (probe m k)"
    and "now m - st + int (waited (probe m) k + drift (\<lambda>i. lag m (reads m + i)) k) \<le> timeout"
  shows "ensureStarted timeout (Some st) failures m =
           (Ready, m\<lparr>now := now m + int (waited (probe m) k + drift (\<lambda>i. lag m (reads m + i)) k
                               + took (probe m k) + lag m (reads m + Suc k)),
                      reads := reads m + k + 2,
                      calls := calls m + k + 1,
                      printed := printed m @
                        [''Machine responded to SSH connections in ''
                           @ number (now m + int (waited (probe m) k
                               + drift (\<lambda>i. lag m (reads m + i)) k
                               + took (probe m k) + lag m (reads m + Suc k)) - st)
                           @ ''ms'']\<rparr>)"
  using assms
proof (induction k arbitrary: m failures)
  case 0
  then obtain d where d: "probe m 0 = Resolved d" by (cases "probe m 0") auto
  with 0 show ?case
    by (subst ensureStarted.simps) (simp add: probe_def new_Date_def Let_def add.assoc)
next
  case (Suc k)
  from Suc.prems(1) obtain d where d: "probe m 0 = Rejected d" by (cases "probe m 0") auto
  let ?L = "\<lambda>i. lag m (reads m + i)"
  let ?m1 = "new_Date m"
  let ?m2 = "?m1\<lparr>now := now ?m1 + int d + 100, calls := calls ?m1 + 1\<rparr>"
  let ?f = "case failures of None \<Rightarrow> 0 | Some n \<Rightarrow> n"
  have p: "probe ?m2 = (\<lambda>j. probe m (Suc j))"
    by (rule ext) (simp add: probe_def new_Date_def)
  have l: "(\<lambda>i. lag ?m2 (reads ?m2 + i)) = (\<lambda>i. ?L (Suc i))"
    by (rule ext) (simp add: new_Date_def)
  have w: "waited (probe m) (Suc j) = d + 100 + waited (probe ?m2) j" for j
    using waited_shift [of "probe m" j] d p by simp
  have dr: "drift ?L (Suc j) = lag m (reads m) + drift (\<lambda>i. lag ?m2 (reads ?m2 + i)) j" for j
    using drift_shift [of ?L j] l by simp
  have e: "now ?m2 + int (waited (probe ?m2) j + drift (\<lambda>i. lag ?m2 (reads ?m2 + i)) j)
             = now m + int (waited (probe m) (Suc j) + drift ?L (Suc j))" for j
    unfolding w dr by (simp add: new_Date_def)
  have a1: "\<forall>j<k. rejected (probe ?m2 j)" using Suc.prems(1) p by auto
  have a2: "\<not> rejected (probe ?m2 k)" using Suc.prems(2) p by simp
  have a3: "now ?m2 - st + int (waited (probe ?m2) k + drift (\<lambda>i. lag ?m2 (reads ?m2 + i)) k)
              \<le> timeout"
    using Suc.prems(3) e [of k] by simp
  have first: "\<not> now ?m1 - st > timeout"
    using Suc.prems(3) drift_first [of ?L "Suc k"] by (simp add: new_Date_def)
  have step: "ensureStarted timeout (Some st) failures m
                = ensureStarted timeout (Some st) (Some (?f + 1)) ?m2"
    using first d by (subst ensureStarted.simps) (simp add: probe_def new_Date_def Let_def)
  have t: "took (probe ?m2 k) = took (probe m (Suc k))" using p by simp
  have g: "lag ?m2 (reads ?m2 + Suc k) = lag m (reads m + Suc (Suc k))"
    by (simp add: new_Date_def)
  have e': "now ?m2 + int (waited (probe ?m2) k + drift (\<lambda>i. lag ?m2 (reads ?m2 + i)) k
                + took (probe ?m2 k) + lag ?m2 (reads ?m2 + Suc k))
             = now m + int (waited (probe m) (Suc k) + drift ?L (Suc k)
                + took (probe m (Suc k)) + lag m (reads m + Suc (Suc k)))"
    using e [of k] t g by simp
  show ?case
    unfolding step Suc.IH [OF a1 a2 a3] e' by (simp add: new_Date_def)
qed

lemma ensureStarted_gives_up:
  assumes "\<forall>j. rejected (probe m j)"
  shows "\<exists>n. ensureStarted timeout (Some st) (Some f) m =
              (Fatal (TestError (''Machine has not responded to SSH in '' @ number timeout
                 @ ''ms (Attempted '' @ decimal (f + n) @ '' connections)'')
                 (trace m (calls m + n))),
               m\<lparr>now := now m + int (waited (probe m) n + drift (\<lambda>i. lag m (reads m + i)) n),
                  reads := reads m + n + 1, calls := calls m + n\<rparr>)
           \<and> timeout < now m - st + int (waited (probe m) n + drift (\<lambda>i. lag m (reads m + i)) n)
           \<and> (\<forall>j<n. now m - st + int (waited (probe m) j + drift (\<lambda>i. lag m (reads m + i)) j)
                        \<le> timeout)"
  using assms
proof (induction "nat (timeout - (now m - st) + 1)" arbitrary: m f rule: less_induct)
  case less
  let ?L = "\<lambda>i. lag m (reads m + i)"
  let ?m1 = "new_Date m"
  show ?case
  proof (cases "now ?m1 - st > timeout")
    case True
    then have "ensureStarted timeout (Some st) (Some f) m =
              (Fatal (TestError (''Machine has not responded to SSH in '' @ number timeout
                 @ ''ms (Attempted '' @ decimal (f + 0) @ '' connections)'')
                 (trace m (calls m + 0))),
               m\<lparr>now := now m + int (waited (probe m) 0 + drift ?L 0),
                  reads := reads m + 0 + 1, calls := calls m + 0\<rparr>)"
      by (subst ensureStarted.simps) (simp add: new_Date_def Let_def)
    moreover from True have "timeout < now m - st + int (waited (probe m) 0 + drift ?L 0)"
      by (simp add: new_Date_def)
    ultimately show ?thesis by (intro exI [of _ 0]) simp
  next
    case False
    from less.prems [rule_format, of 0] obtain d where d: "probe m 0 = Rejected d"
      by (cases "probe m 0") auto
    let ?m2 = "?m1\<lparr>now := now ?m1 + int d + 100, calls := calls ?m1 + 1\<rparr>"
    have p: "probe ?m2 = (\<lambda>j. probe m (Suc j))"
      by (rule ext) (simp add: probe_def new_Date_def)
    have l: "(\<lambda>i. lag ?m2 (reads ?m2 + i)) = (\<lambda>i. ?L (Suc i))"
      by (rule ext) (simp add: new_Date_def)
    have w: "waited (probe m) (Suc j) = d + 100 + waited (probe ?m2) j" for j
      using waited_shift [of "probe m" j] d p by simp
    have dr: "drift ?L (Suc j) = lag m (reads m) + drift (\<lambda>i. lag ?m2 (reads ?m2 + i)) j" for j
      using drift_shift [of ?L j] l by simp
    have e: "now ?m2 + int (waited (probe ?m2) j + drift (\<lambda>i. lag ?m2 (reads ?m2 + i)) j)
               = now m + int (waited (probe m) (Suc j) + drift ?L (Suc j))" for j
      unfolding w dr by (simp add: new_Date_def)
    have smaller: "nat (timeout - (now ?m2 - st) + 1) < nat (timeout - (now m - st) + 1)"
      using False by (simp add: new_Date_def)
    have all: "\<forall>j. rejected (probe ?m2 j)" using less.prems p by simp
    from less.hyps [OF smaller all, of "f + 1"] obtain n where
      run: "ensureStarted timeout (Some st) (Some (f + 1)) ?m2 =
              (Fatal (TestError (''Machine has not responded to SSH in '' @ number timeout
                 @ ''ms (Attempted '' @ decimal (f + 1 + n) @ '' connections)'')
                 (trace ?m2 (calls ?m2 + n))),
               ?m2\<lparr>now := now ?m2
                        + int (waited (probe ?m2) n + drift (\<lambda>i. lag ?m2 (reads ?m2 + i)) n),
                  reads := reads ?m2 + n + 1, calls := calls ?m2 + n\<rparr>)"
      and late: "timeout < now ?m2 - st
                   + int (waited (probe ?m2) n + drift (\<lambda>i. lag ?m2 (reads ?m2 + i)) n)"
      and early: "\<forall>j<n. now ?m2 - st
                   + int (waited (probe ?m2) j + drift (\<lambda>i. lag ?m2 (reads ?m2 + i)) j) \<le> timeout"
      by blast
    have step: "ensureStarted timeout (Some st) (Some f) m
                  = ensureStarted timeout (Some st) (Some (f + 1)) ?m2"
      using False d by (subst ensureStarted.simps) (simp add: probe_def new_Date_def Let_def)
    have 1: "ensureStarted timeout (Some st) (Some f) m =
              (Fatal (TestError (''Machine has not responded to SSH in '' @ number timeout
                 @ ''ms (Attempted '' @ decimal (f + Suc n) @ '' connections)'')
                 (trace m (calls m + Suc n))),
               m\<lparr>now := now m + int (waited (probe m) (Suc n) + drift ?L (Suc n)),
                  reads := reads m + Suc n + 1, calls := calls m + Suc n\<rparr>)"
      unfolding step run e by (simp add: new_Date_def)
    have 2: "timeout < now m - st + int (waited (probe m) (Suc n) + drift ?L (Suc n))"
      using late e [of n] by simp
    have 3: "\<forall>j<Suc n. now m - st + int (waited (probe m) j + drift ?L j) \<le> timeout"
    proof (intro allI impI)
      fix j assume "j < Suc n"
      show "now m - st + int (waited (probe m) j + drift ?L j) \<le> timeout"
      proof (cases j)
        case 0
        with False show ?thesis by (simp add: new_Date_def)
      next
        case (Suc i)
        with \<open>j < Suc n\<close> early
        have "now ?m2 - st + int (waited (probe ?m2) i + drift (\<lambda>i. lag ?m2 (reads ?m2 + i)) i)
                \<le> timeout" by simp
        with e [of i] Suc show ?thesis by simp
      qed
    qed
    from 1 2 3 show ?thesis by blast
  qed
qed

lemma ensureStarted_calls_mono:
  "calls m \<le> calls (snd (ensureStarted timeout started failures m))"
proof (induction timeout started failures m rule: ensureStarted.induct)
  case (1 timeout started failures m)
  show ?case
    apply (subst ensureStarted.simps)
    apply (auto simp: Let_def new_Date_def split: settled.splits option.splits)
    using 1 apply (fastforce simp: Let_def new_Date_def)+
    done
qed

lemma ensureServiceStarted_calls_mono:
  "calls m \<le> calls (snd (ensureServiceStarted service timeout started m))"
proof (induction service timeout started m rule: ensureServiceStarted.induct)
  case (1 service timeout started m)
  show ?case
    apply (subst ensureServiceStarted.simps)
    apply (auto simp: Let_def new_Date_def split: attempt.splits option.splits)
    using 1 apply (fastforce simp: Let_def new_Date_def)+
    done
qed

lemma ensureStarted_fatal_message:
  "ensureStarted timeout started failures m = (Fatal e, m') \<Longrightarrow>
     message e = ''Machine has not responded to SSH in '' @ number timeout @ ''ms (Attempted ''
        @ decimal ((case failures of None \<Rightarrow> 0 | Some n \<Rightarrow> n) + (calls m' - calls m))
        @ '' connections)''"
proof (induction timeout started failures m rule: ensureStarted.induct)
  case (1 timeout started failures m)
  let ?m0 = "case started of None \<Rightarrow> new_Date m | Some t \<Rightarrow> m"
  let ?st = "case started of None \<Rightarrow> now ?m0 | Some t \<Rightarrow> t"
  let ?f = "case failures of None \<Rightarrow> 0 | Some n \<Rightarrow> n"
  let ?m1 = "new_Date ?m0"
  have c1: "calls ?m1 = calls m" by (simp add: new_Date_def split: option.splits)
  show ?case
  proof (cases "now ?m1 - ?st > timeout")
    case True
    with "1.prems" c1 show ?thesis
      by (subst (asm) ensureStarted.simps) (auto simp: Let_def TestError_def)
  next
    case False
    show ?thesis
    proof (cases "promiseTimeout (ssh ?m1 echo_test (calls ?m1)) (sshTimeout ?m1)")
      case (Resolved d)
      with False "1.prems" show ?thesis
        by (subst (asm) ensureStarted.simps) (auto simp: Let_def)
    next
      case (Rejected d)
      let ?m2 = "?m1\<lparr>now := now ?m1 + int d + 100, calls := calls ?m1 + 1\<rparr>"
      from False Rejected "1.prems"
      have run: "ensureStarted timeout (Some ?st) (Some (?f + 1)) ?m2 = (Fatal e, m')"
        by (subst (asm) ensureStarted.simps) (simp add: Let_def)
      have mono: "calls ?m2 \<le> calls m'"
        using ensureStarted_calls_mono [of ?m2 timeout "Some ?st" "Some (?f + 1)"] run by simp
      from "1.IH" [OF refl refl refl refl _ Rejected run] False
      have msg: "message e = ''Machine has not responded to SSH in '' @ number timeout @ ''ms (Attempted ''
        @ decimal ((?f + 1) + (calls m' - calls ?m2)) @ '' connections)''"
        by simp
      have eq: "(?f + 1) + (calls m' - calls ?m2) = ?f + (calls m' - calls m)"
        using mono c1 by simp
      show ?thesis using msg unfolding eq .
    qed
  qed
qed

lemma ensureServiceStarted_fatal_message:
  "ensureServiceStarted service timeout started m = (Fatal e, m') \<Longrightarrow>
     message e = ''Service '' @ service @ '' has not started after '' @ number timeout @ ''ms.''"
proof (induction service timeout started m rule: ensureServiceStarted.induct)
  case (1 service timeout started m)
  let ?m0 = "case started of None \<Rightarrow> new_Date m | Some t \<Rightarrow> m"
  let ?st = "case started of None \<Rightarrow> now ?m0 | Some t \<Rightarrow> t"
  let ?m1 = "new_Date ?m0"
  show ?case
  proof (cases "now ?m1 - ?st > timeout")
    case True
    with "1.prems" show ?thesis
      by (subst (asm) ensureServiceStarted.simps) (auto simp: Let_def TestError_def)
  next
    case False
    show ?thesis
    proof (cases "ssh ?m1 (''systemctl is-active '' @ service) (calls ?m1)")
      case (Resolves d)
      with False "1.prems" show ?thesis
        by (subst (asm) ensureServiceStarted.simps) (auto simp: Let_def)
    next
      case Pending
      with False "1.prems" show ?thesis
        by (subst (asm) ensureServiceStarted.simps) (auto simp: Let_def)
    next
      case (Rejects d)
      let ?m2 = "?m1\<lparr>now := now ?m1 + int d + 100, calls := calls ?m1 + 1\<rparr>"
      from False Rejects "1.prems"
      have run: "ensureServiceStarted service timeout (Some ?st) ?m2 = (Fatal e, m')"
        by (subst (asm) ensureServiceStarted.simps) (simp add: Let_def)
      from "1.IH" [OF refl refl refl _ Rejects run] False show ?thesis by simp
    qed
  qed
qed

lemma ensureStarted_first_call_probes:
  assumes "int (lag m (Suc (reads m))) \<le> timeout"
  shows "calls m < calls (snd (ensureStarted timeout None failures m))"
proof -
  let ?m1 = "new_Date (new_Date m)"
  let ?f = "case failures of None \<Rightarrow> 0 | Some n \<Rightarrow> n"
  have first: "\<not> now ?m1 - now (new_Date m) > timeout"
    using assms by (simp add: new_Date_def)
  show ?thesis
  proof (cases "promiseTimeout (ssh ?m1 echo_test (calls ?m1)) (sshTimeout ?m1)")
    case (Resolved d)
    with first show ?thesis
      by (subst ensureStarted.simps) (simp add: Let_def new_Date_def)
  next
    case (Rejected d)
    let ?m2 = "?m1\<lparr>now := now ?m1 + int d + 100, calls := calls ?m1 + 1\<rparr>"
    have "ensureStarted timeout None failures m
            = ensureStarted timeout (Some (now (new_Date m))) (Some (?f + 1)) ?m2"
      using first Rejected by (subst ensureStarted.simps) (simp add: Let_def)
    with ensureStarted_calls_mono [of ?m2 timeout "Some (now (new_Date m))" "Some (?f + 1)"]
    show ?thesis by (simp add: new_Date_def)
  qed
qed

lemma ensureServiceStarted_first_call_probes:
  assumes "int (lag m (Suc (reads m))) \<le> timeout"
  shows "calls m < calls (snd (ensureServiceStarted service timeout None m))"
proof -
  let ?m1 = "new_Date (new_Date m)"
  have first: "\<not> now ?m1 - now (new_Date m) > timeout"
    using assms by (simp add: new_Date_def)
  show ?thesis
  proof (cases "ssh ?m1 (''systemctl is-active '' @ service) (calls ?m1)")
    case (Resolves d)
    with first show ?thesis
      by (subst ensureServiceStarted.simps) (simp add: Let_def new_Date_def)
  next
    case Pending
    with first show ?thesis
      by (subst ensureServiceStarted.simps) (simp add: Let_def new_Date_def)
  next
    case (Rejects d)
    let ?m2 = "?m1\<lparr>now := now ?m1 + int d + 100, calls := calls ?m1 + 1\<rparr>"
    have "ensureServiceStarted service timeout None m
            = ensureServiceStarted service timeout (Some (now (new_Date m))) ?m2"
      using first Rejects by (subst ensureServiceStarted.simps) (simp add: Let_def)
    with ensureServiceStarted_calls_mono [of ?m2 service timeout "Some (now (new_Date m))"]
    show ?thesis by (simp add: new_Date_def)
  qed
qed

subsection \<open>The pollers\<close>

text \<open>
  C10, amended. The deadline test is \<open>new Date() - started > timeout\<close>, a strict inequality.
  On a first call (no \<open>started\<close> given) the elapsed time it tests is what passes between the
  reading that sets \<open>started\<close> and the reading of the test. When that is not more than the
  timeout, in particular when it is zero and the timeout is not negative, either poller
  issues its remote command before it can fail: whatever the outcome, and a fatal one in
  particular, the command counter has grown.
\<close>

theorem poller_probes_before_failing:
  assumes "int (lag m (Suc (reads m))) \<le> timeout"
  shows "calls m < calls (snd (ensureStarted timeout None None m))
       \<and> calls m < calls (snd (ensureServiceStarted service timeout None m))
       \<and> (\<forall>e m'. ensureStarted timeout None None m = (Fatal e, m') \<longrightarrow> calls m < calls m')
       \<and> (\<forall>e m'. ensureServiceStarted service timeout None m = (Fatal e, m') \<longrightarrow> calls m < calls m')"
proof -
  have 1: "calls m < calls (snd (ensureStarted timeout None None m))"
    using assms by (rule ensureStarted_first_call_probes)
  have 2: "calls m < calls (snd (ensureServiceStarted service timeout None m))"
    using assms by (rule ensureServiceStarted_first_call_probes)
  from 1 2 show ?thesis by auto
qed

text \<open>
  C7, amended. When \<open>ensureStarted\<close> fails fatally, its message consists of the timeout and
  the number of remote commands the call has issued. When \<open>ensureServiceStarted\<close> fails
  fatally, its message consists of the service and the timeout; it keeps no count.
\<close>

theorem fatal_message_contents:
  "(ensureStarted timeout None None m = (Fatal e, m') \<longrightarrow>
      message e = ''Machine has not responded to SSH in '' @ number timeout @ ''ms (Attempted ''
        @ decimal (calls m' - calls m) @ '' connections)'')
   \<and> (ensureServiceStarted service timeout None m = (Fatal e, m') \<longrightarrow>
      message e = ''Service '' @ service @ '' has not started after '' @ number timeout @ ''ms.'')"
  using ensureStarted_fatal_message [of timeout None None m e m']
    ensureServiceStarted_fatal_message [of service timeout None m e m']
  by simp

text \<open>
  C8, amended. When the first \<open>k\<close> attempts fail, the next one succeeds, and the time that has
  passed at the test of the deadline after them (what the failed attempts took, the 100 ms
  slept after each, and what passed before the readings of the clock) is less than the
  timeout, \<open>ensureStarted\<close> resolves after exactly \<open>k + 1\<close> attempts. When every attempt fails,
  \<open>ensureStarted\<close> fails fatally at the first test of the deadline at which more than the
  timeout has passed, citing the attempts made.
\<close>

theorem ensureStarted_retries_until_ready:
  "((\<forall>j<k. rejected (probe m j)) \<and> \<not> rejected (probe m k) \<and> int (elapsed m k) < timeout \<longrightarrow>
      ensureStarted timeout None None m =
        (Ready, m\<lparr>now := now m + int (lag m (reads m) + elapsed m k + took (probe m k)
                            + lag m (reads m + k + 2)),
                   reads := reads m + k + 3,
                   calls := calls m + k + 1,
                   printed := printed m @
                     [''Machine responded to SSH connections in ''
                        @ number (int (elapsed m k + took (probe m k) + lag m (reads m + k + 2)))
                        @ ''ms'']\<rparr>))
   \<and> ((\<forall>j. rejected (probe m j)) \<longrightarrow>
        (\<exists>n. ensureStarted timeout None None m =
              (Fatal (TestError (''Machine has not responded to SSH in '' @ number timeout
                 @ ''ms (Attempted '' @ decimal n @ '' connections)'') (trace m (calls m + n))),
               m\<lparr>now := now m + int (lag m (reads m) + elapsed m n),
                  reads := reads m + n + 2, calls := calls m + n\<rparr>)
           \<and> timeout < int (elapsed m n)
           \<and> (\<forall>j<n. int (elapsed m j) \<le> timeout)))"
proof (intro conjI impI)
  let ?m0 = "new_Date m"
  have pm: "probe ?m0 = probe m" by (rule ext) (simp add: probe_def new_Date_def)
  have pm2: "probe (m\<lparr>now := a, reads := b\<rparr>) = probe m" for a b
    by (rule ext) (simp add: probe_def)
  have lm: "(\<lambda>i. lag ?m0 (reads ?m0 + i)) = (\<lambda>i. lag m (reads m + Suc i))"
    by (rule ext) (simp add: new_Date_def)
  have el: "waited (probe ?m0) j + drift (\<lambda>i. lag ?m0 (reads ?m0 + i)) j = elapsed m j" for j
    unfolding pm lm elapsed_def ..
  {
    assume a: "(\<forall>j<k. rejected (probe m j)) \<and> \<not> rejected (probe m k) \<and> int (elapsed m k) < timeout"
    then have "now ?m0 - now ?m0
        + int (waited (probe ?m0) k + drift (\<lambda>i. lag ?m0 (reads ?m0 + i)) k) \<le> timeout"
      unfolding el by simp
    with a ensureStarted_ready [of k ?m0 "now ?m0" timeout None]
    have "ensureStarted timeout (Some (now ?m0)) None ?m0 =
           (Ready, ?m0\<lparr>now := now ?m0 + int (waited (probe ?m0) k
                               + drift (\<lambda>i. lag ?m0 (reads ?m0 + i)) k
                               + took (probe ?m0 k) + lag ?m0 (reads ?m0 + Suc k)),
                      reads := reads ?m0 + k + 2,
                      calls := calls ?m0 + k + 1,
                      printed := printed ?m0 @
                        [''Machine responded to SSH connections in ''
                           @ number (now ?m0 + int (waited (probe ?m0) k
                               + drift (\<lambda>i. lag ?m0 (reads ?m0 + i)) k
                               + took (probe ?m0 k) + lag ?m0 (reads ?m0 + Suc k)) - now ?m0)
                           @ ''ms'']\<rparr>)"
      unfolding pm by blast
    then show "ensureStarted timeout None None m =
        (Ready, m\<lparr>now := now m + int (lag m (reads m) + elapsed m k + took (probe m k)
                            + lag m (reads m + k + 2)),
                   reads := reads m + k + 3,
                   calls := calls m + k + 1,
                   printed := printed m @
                     [''Machine responded to SSH connections in ''
                        @ number (int (elapsed m k + took (probe m k) + lag m (reads m + k + 2)))
                        @ ''ms'']\<rparr>)"
      unfolding ensureStarted_entry
      by (simp add: new_Date_def elapsed_def pm2 add.assoc numeral_3_eq_3 numeral_2_eq_2)
  }
  {
    assume "\<forall>j. rejected (probe m j)"
    then have "\<forall>j. rejected (probe ?m0 j)" unfolding pm .
    from ensureStarted_gives_up [OF this, of timeout "now ?m0" 0]
    obtain n where
      run: "ensureStarted timeout (Some (now ?m0)) (Some 0) ?m0 =
              (Fatal (TestError (''Machine has not responded to SSH in '' @ number timeout
                 @ ''ms (Attempted '' @ decimal (0 + n) @ '' connections)'')
                 (trace ?m0 (calls ?m0 + n))),
               ?m0\<lparr>now := now ?m0 + int (waited (probe ?m0) n
                             + drift (\<lambda>i. lag ?m0 (reads ?m0 + i)) n),
                  reads := reads ?m0 + n + 1, calls := calls ?m0 + n\<rparr>)"
      and late: "timeout < now ?m0 - now ?m0
                   + int (waited (probe ?m0) n + drift (\<lambda>i. lag ?m0 (reads ?m0 + i)) n)"
      and early: "\<forall>j<n. now ?m0 - now ?m0
                   + int (waited (probe ?m0) j + drift (\<lambda>i. lag ?m0 (reads ?m0 + i)) j) \<le> timeout"
      by blast
    have same: "ensureStarted timeout None None m = ensureStarted timeout (Some (now ?m0)) (Some 0) ?m0"
      by (subst ensureStarted.simps, subst (2) ensureStarted.simps) (simp add: Let_def)
    have 1: "ensureStarted timeout None None m =
              (Fatal (TestError (''Machine has not responded to SSH in '' @ number timeout
                 @ ''ms (Attempted '' @ decimal n @ '' connections)'') (trace m (calls m + n))),
               m\<lparr>now := now m + int (lag m (reads m) + elapsed m n),
                  reads := reads m + n + 2, calls := calls m + n\<rparr>)"
      unfolding same run
      by (simp add: new_Date_def elapsed_def pm2 add.assoc numeral_2_eq_2)
    have 2: "timeout < int (elapsed m n)" using late unfolding el by simp
    have 3: "\<forall>j<n. int (elapsed m j) \<le> timeout" using early unfolding el by simp
    from 1 2 3
    show "\<exists>n. ensureStarted timeout None None m =
              (Fatal (TestError (''Machine has not responded to SSH in '' @ number timeout
                 @ ''ms (Attempted '' @ decimal n @ '' connections)'') (trace m (calls m + n))),
               m\<lparr>now := now m + int (lag m (reads m) + elapsed m n),
                  reads := reads m + n + 2, calls := calls m + n\<rparr>)
           \<and> timeout < int (elapsed m n)
           \<and> (\<forall>j<n. int (elapsed m j) \<le> timeout)"
      by blast
  }
qed

text \<open>
  C7, as stated, fails for \<open>ensureServiceStarted\<close>: on a machine that refuses every
  connection the service poller gives up after two attempts, and its message does not contain
  the number of attempts.
\<close>

theorem service_message_omits_attempts:
  "ensureServiceStarted ''sshd'' 150 None (TestMachine refusing 0)
     = (Fatal (TestError ''Service sshd has not started after 150ms.'' ''''),
        (TestMachine refusing 0)\<lparr>now := 200, reads := 4, calls := 2\<rparr>)
   \<and> \<not> sublist (decimal 2) ''Service sshd has not started after 150ms.''"
  by (simp add: ensureServiceStarted.simps TestMachine_def refusing_def new_Date_def number_def
      decimal.simps digit_def sublist_Cons_right)

text \<open>
  C8, as stated, fails when an attempt takes time: the probe fails once and then succeeds,
  and one backoff of 100 ms is less than the timeout of 150 ms, but the failed attempt took
  100 ms itself, so 200 ms have passed at the second test of the deadline and the poller
  gives up after one attempt.
\<close>

theorem ensureStarted_slow_attempt_gives_up:
  "booting echo_test 0 = Rejects 100 \<and> booting echo_test 1 = Resolves 0
   \<and> (1::int) * 100 < 150
   \<and> ensureStarted 150 None None (TestMachine booting 0)
       = (Fatal (TestError ''Machine has not responded to SSH in 150ms (Attempted 1 connections)''
            ''''),
          (TestMachine booting 0)\<lparr>now := 200, reads := 3, calls := 1\<rparr>)"
  by (simp add: ensureStarted.simps TestMachine_def booting_def promiseTimeout_def new_Date_def
      number_def decimal.simps digit_def)

text \<open>
  C10, as stated, fails when time passes between the two readings of a first call: with a
  timeout of 0 and one millisecond before every reading, the first test of the deadline
  finds 1 > 0 and \<open>ensureStarted\<close> fails fatally without having issued a command.
\<close>

theorem first_call_fails_without_probe:
  "(0::int) \<le> 0
   \<and> ensureStarted 0 None None ((TestMachine refusing 0)\<lparr>lag := ticking\<rparr>)
       = (Fatal (TestError ''Machine has not responded to SSH in 0ms (Attempted 0 connections)''
            ''''),
          (TestMachine refusing 0)\<lparr>lag := ticking, now := 2, reads := 2\<rparr>)
   \<and> calls ((TestMachine refusing 0)\<lparr>lag := ticking, now := 2, reads := 2\<rparr>)
       = calls ((TestMachine refusing 0)\<lparr>lag := ticking\<rparr>)"
  by (simp add: ensureStarted.simps TestMachine_def ticking_def new_Date_def number_def
      decimal.simps digit_def)

text \<open>C7, amended, on a machine that refuses every connection, with a timeout of 150 ms.\<close>

theorem fatal_message_contents_witness:
  "ensureStarted 150 None None (TestMachine refusing 0)
     = (Fatal (TestError ''Machine has not responded to SSH in 150ms (Attempted 2 connections)''
          ''''),
        (TestMachine refusing 0)\<lparr>now := 200, reads := 4, calls := 2\<rparr>)
   \<and> message (TestError ''Machine has not responded to SSH in 150ms (Attempted 2 connections)'' '''')
       = ''Machine has not responded to SSH in '' @ number 150 @ ''ms (Attempted ''
           @ decimal (calls ((TestMachine refusing 0)\<lparr>now := 200, reads := 4, calls := 2\<rparr>)
                        - calls (TestMachine refusing 0)) @ '' connections)''
   \<and> ensureServiceStarted ''sshd'' 150 None (TestMachine refusing 0)
     = (Fatal (TestError ''Service sshd has not started after 150ms.'' ''''),
        (TestMachine refusing 0)\<lparr>now := 200, reads := 4, calls := 2\<rparr>)
   \<and> message (TestError ''Service sshd has not started after 150ms.'' '''')
       = ''Service '' @ ''sshd'' @ '' has not started after '' @ number 150 @ ''ms.''"
proof -
  have a: "ensureStarted 150 None None (TestMachine refusing 0)
     = (Fatal (TestError ''Machine has not responded to SSH in 150ms (Attempted 2 connections)''
          ''''),
        (TestMachine refusing 0)\<lparr>now := 200, reads := 4, calls := 2\<rparr>)"
    by (simp add: ensureStarted.simps TestMachine_def refusing_def promiseTimeout_def
        new_Date_def number_def decimal.simps digit_def)
  have b: "ensureServiceStarted ''sshd'' 150 None (TestMachine refusing 0)
     = (Fatal (TestError ''Service sshd has not started after 150ms.'' ''''),
        (TestMachine refusing 0)\<lparr>now := 200, reads := 4, calls := 2\<rparr>)"
    by (simp add: ensureServiceStarted.simps TestMachine_def refusing_def new_Date_def number_def
        decimal.simps digit_def)
  from a b
    fatal_message_contents [of 150 "TestMachine refusing 0"
      "TestError ''Machine has not responded to SSH in 150ms (Attempted 2 connections)'' ''''"
      "(TestMachine refusing 0)\<lparr>now := 200, reads := 4, calls := 2\<rparr>"]
    fatal_message_contents [of 150 "TestMachine refusing 0"
      "TestError ''Service sshd has not started after 150ms.'' ''''"
      "(TestMachine refusing 0)\<lparr>now := 200, reads := 4, calls := 2\<rparr>" "''sshd''"]
  show ?thesis by simp
qed

text \<open>
  C8, amended, on a machine whose first connection fails (timeout 1000 ms) and on one that
  refuses every connection (timeout 150 ms).
\<close>

theorem ensureStarted_retries_until_ready_witness:
  "rejected (probe (TestMachine booting 0) 0)
   \<and> \<not> rejected (probe (TestMachine booting 0) (Suc 0))
   \<and> int (elapsed (TestMachine booting 0) (Suc 0)) < 1000
   \<and> ensureStarted 1000 None None (TestMachine booting 0)
       = (Ready, (TestMachine booting 0)\<lparr>now := 200, reads := 4, calls := 2,
            printed := [''Machine responded to SSH connections in 200ms'']\<rparr>)
   \<and> (\<forall>j. rejected (probe (TestMachine refusing 0) j))
   \<and> (\<exists>n. ensureStarted 150 None None (TestMachine refusing 0) =
              (Fatal (TestError (''Machine has not responded to SSH in '' @ number 150
                 @ ''ms (Attempted '' @ decimal n @ '' connections)'')
                 (trace (TestMachine refusing 0) (calls (TestMachine refusing 0) + n))),
               (TestMachine refusing 0)\<lparr>now := now (TestMachine refusing 0)
                    + int (lag (TestMachine refusing 0) (reads (TestMachine refusing 0))
                           + elapsed (TestMachine refusing 0) n),
                  reads := reads (TestMachine refusing 0) + n + 2,
                  calls := calls (TestMachine refusing 0) + n\<rparr>)
           \<and> 150 < int (elapsed (TestMachine refusing 0) n)
           \<and> (\<forall>j<n. int (elapsed (TestMachine refusing 0) j) \<le> 150))"
proof -
  have p0: "probe (TestMachine booting 0) 0 = Rejected 100"
    by (simp add: probe_def TestMachine_def booting_def promiseTimeout_def)
  have p1: "probe (TestMachine booting 0) (Suc 0) = Resolved 0"
    by (simp add: probe_def TestMachine_def booting_def promiseTimeout_def)
  have el: "elapsed (TestMachine booting 0) (Suc 0) = 200"
    using p0 by (simp add: elapsed_def) (simp add: TestMachine_def)
  have h1: "(\<forall>j<Suc 0. rejected (probe (TestMachine booting 0) j))
      \<and> \<not> rejected (probe (TestMachine booting 0) (Suc 0))
      \<and> int (elapsed (TestMachine booting 0) (Suc 0)) < 1000"
    using p0 p1 el by simp
  have h2: "\<forall>j. rejected (probe (TestMachine refusing 0) j)"
    by (simp add: probe_def TestMachine_def refusing_def promiseTimeout_def)
  have n200: "number 200 = ''200''"
    by (simp add: number_def decimal.simps digit_def)
  from h1 ensureStarted_retries_until_ready [of "Suc 0" "TestMachine booting 0" 1000]
  have r1: "ensureStarted 1000 None None (TestMachine booting 0)
       = (Ready, (TestMachine booting 0)\<lparr>now := 200, reads := 4, calls := 2,
            printed := [''Machine responded to SSH connections in 200ms'']\<rparr>)"
    using p0 p1 el n200 by (simp add: TestMachine_def)
  from h2 ensureStarted_retries_until_ready [of 0 "TestMachine refusing 0" 150]
  have r2: "\<exists>n. ensureStarted 150 None None (TestMachine refusing 0) =
              (Fatal (TestError (''Machine has not responded to SSH in '' @ number 150
                 @ ''ms (Attempted '' @ decimal n @ '' connections)'')
                 (trace (TestMachine refusing 0) (calls (TestMachine refusing 0) + n))),
               (TestMachine refusing 0)\<lparr>now := now (TestMachine refusing 0)
                    + int (lag (TestMachine refusing 0) (reads (TestMachine refusing 0))
                           + elapsed (TestMachine refusing 0) n),
                  reads := reads (TestMachine refusing 0) + n + 2,
                  calls := calls (TestMachine refusing 0) + n\<rparr>)
           \<and> 150 < int (elapsed (TestMachine refusing 0) n)
           \<and> (\<forall>j<n. int (elapsed (TestMachine refusing 0) j) \<le> 150)"
    by blast
  from p0 h1 h2 r1 r2 show ?thesis by simp
qed

text \<open>
  C10, amended, with a timeout of 0 on a machine that refuses every connection, on a host
  where no time passes between the readings.
\<close>

theorem poller_probes_before_failing_witness:
  "int (lag (TestMachine refusing 0) (Suc (reads (TestMachine refusing 0)))) \<le> 0
   \<and> calls (TestMachine refusing 0) < calls (snd (ensureStarted 0 None None (TestMachine refusing 0)))
   \<and> calls (TestMachine refusing 0)
        < calls (snd (ensureServiceStarted ''sshd'' 0 None (TestMachine refusing 0)))"
proof -
  have h: "int (lag (TestMachine refusing 0) (Suc (reads (TestMachine refusing 0)))) \<le> 0"
    by (simp add: TestMachine_def)
  from h poller_probes_before_failing [OF h, of "''sshd''"]
  show ?thesis by simp
qed

end
